theory Spec2Isabelle
  imports Main
begin

section \<open>Status snapshots\<close>

text \<open>
  The status objects that \<^verbatim>\<open>model.get_status\<close> returns, with the attributes that
  \<^verbatim>\<open>sunbeam/core/juju.py\<close> reads. A Python attribute that may be \<^verbatim>\<open>None\<close> is an
  option; the dictionary \<^verbatim>\<open>units\<close> is the list of its items in iteration order
  (its keys are distinct); \<^verbatim>\<open>subordinate_to\<close> is a list, false when empty.
  The attribute \<^verbatim>\<open>status\<close> of an application is the field \<open>application_status\<close>,
  since \<open>status\<close> is already the field of \<open>DetailedStatus\<close>, and \<^verbatim>\<open>int_\<close> is
  \<open>int_value\<close> (a name cannot end with an underscore); the status strings
  are what \<^verbatim>\<open>str(...)\<close> renders.
\<close>

record DetailedStatus =
  status :: string
  info :: string

record UnitStatus =
  workload_status :: "DetailedStatus option"
  agent_status :: "DetailedStatus option"

record ApplicationStatus =
  units :: "(string \<times> UnitStatus) list"
  subordinate_to :: "string list"
  application_status :: "DetailedStatus option"
  int_value :: "int option"

record FullStatus =
  applications :: "string \<rightharpoonup> ApplicationStatus"

section \<open>The check of one snapshot in \<^verbatim>\<open>_wait_until_status_coroutine\<close>\<close>

text \<open>
  Lines 1184 to 1190: the loop over \<^verbatim>\<open>units.items()\<close> that adds the workload and
  agent status of every unit in scope to the two sets.
\<close>

fun collect_units ::
  "string list option \<Rightarrow> (string \<times> UnitStatus) list \<Rightarrow> string set \<times> string set
    \<Rightarrow> string set \<times> string set" where
  "collect_units unit_list [] (app_status, agent_statuses) = (app_status, agent_statuses)"
| "collect_units unit_list ((name, unit) # rest) (app_status, agent_statuses) =
     (if unit_list = None \<or> name \<in> set (the unit_list) then
        collect_units unit_list rest
          (case workload_status unit of
             None \<Rightarrow> app_status
           | Some wl_status \<Rightarrow> insert (status wl_status) app_status,
           case agent_status unit of
             None \<Rightarrow> agent_statuses
           | Some ag_status \<Rightarrow> insert (status ag_status) agent_statuses)
      else collect_units unit_list rest (app_status, agent_statuses))"

text \<open>Lines 1176 to 1190: a subordinate reports through the application, not its units.\<close>

definition collect_status ::
  "ApplicationStatus \<Rightarrow> string list option \<Rightarrow> string set \<times> string set" where
  "collect_status application unit_list =
     (if subordinate_to application \<noteq> [] then
        (case application_status application of
           None \<Rightarrow> ({}, {})
         | Some st \<Rightarrow> ({status st}, {}))
      else collect_units unit_list (units application) ({}, {}))"

text \<open>Lines 1192 to 1198.\<close>

definition expected_unit_count :: "ApplicationStatus \<Rightarrow> string list option \<Rightarrow> int option" where
  "expected_unit_count application unit_list =
     (case unit_list of
        None \<Rightarrow> int_value application
      | Some ul \<Rightarrow> Some (int (length ul)))"

definition unit_count :: "ApplicationStatus \<Rightarrow> string list option \<Rightarrow> int" where
  "unit_count application unit_list =
     (case unit_list of
        None \<Rightarrow> int (length (units application))
      | Some ul \<Rightarrow> int (length (filter (\<lambda>unit. unit \<in> set ul) (map fst (units application)))))"

text \<open>Lines 1200 to 1202.\<close>

definition unit_count_cond :: "ApplicationStatus \<Rightarrow> string list option \<Rightarrow> bool" where
  "unit_count_cond application unit_list =
     (expected_unit_count application unit_list = None
      \<or> expected_unit_count application unit_list = Some (unit_count application unit_list))"

text \<open>
  Lines 1203 to 1211: the condition under which the watch task returns. The collected
  sets are finite, so \<^verbatim>\<open>len(app_status) > 0\<close> says that the set is not empty.
\<close>

definition desired_status_reached ::
  "ApplicationStatus \<Rightarrow> string list option \<Rightarrow> string set \<Rightarrow> string list option \<Rightarrow> bool" where
  "desired_status_reached application unit_list expected_status expected_agent_status =
     (unit_count_cond application unit_list
      \<and> fst (collect_status application unit_list) \<noteq> {}
      \<and> fst (collect_status application unit_list) \<subseteq> expected_status
      \<and> (expected_agent_status = None
         \<or> snd (collect_status application unit_list) \<subseteq> set (the expected_agent_status)))"

section \<open>The verdict as the specification words it\<close>

text \<open>
  The units in scope are the units of the application, restricted to the unit subset
  when one is given. The observed workload statuses are the ones these units report
  (for a subordinate: the status of the application itself, if any), the observed agent
  statuses likewise (none for a subordinate), and the observed status messages are the
  \<^verbatim>\<open>info\<close> of the observed workload statuses.
\<close>

definition spec_units_in_scope :: "ApplicationStatus \<Rightarrow> string list option \<Rightarrow> UnitStatus list" where
  "spec_units_in_scope application unit_subset =
     map snd (filter (\<lambda>item. case unit_subset of None \<Rightarrow> True | Some ul \<Rightarrow> fst item \<in> set ul)
                (units application))"

definition spec_observed_workload ::
  "ApplicationStatus \<Rightarrow> string list option \<Rightarrow> DetailedStatus list" where
  "spec_observed_workload application unit_subset =
     (if subordinate_to application \<noteq> [] then
        (case application_status application of None \<Rightarrow> [] | Some st \<Rightarrow> [st])
      else List.map_filter workload_status (spec_units_in_scope application unit_subset))"

definition spec_observed_agent ::
  "ApplicationStatus \<Rightarrow> string list option \<Rightarrow> DetailedStatus list" where
  "spec_observed_agent application unit_subset =
     (if subordinate_to application \<noteq> [] then []
      else List.map_filter agent_status (spec_units_in_scope application unit_subset))"

text \<open>
  The four conditions (a) to (d) of the specification, in its order; the expected unit
  count is the one of the snapshot, or the size of the unit subset when one is given.
\<close>

definition spec_verdict ::
  "ApplicationStatus \<Rightarrow> string list option \<Rightarrow> string set \<Rightarrow> string list option
    \<Rightarrow> string set option \<Rightarrow> bool" where
  "spec_verdict application unit_subset expected_workload expected_agent expected_messages =
     ((expected_unit_count application unit_subset = None
       \<or> expected_unit_count application unit_subset
           = Some (int (length (spec_units_in_scope application unit_subset))))
      \<and> (spec_observed_workload application unit_subset \<noteq> []
         \<and> set (map status (spec_observed_workload application unit_subset)) \<subseteq> expected_workload)
      \<and> (case expected_agent of
           None \<Rightarrow> True
         | Some ag \<Rightarrow> set (map status (spec_observed_agent application unit_subset)) \<subseteq> set ag)
      \<and> (case expected_messages of
           None \<Rightarrow> True
         | Some ms \<Rightarrow> set (map info (spec_observed_workload application unit_subset)) \<subseteq> ms))"

text \<open>
  The specification's rule for a subordinate: only the status of the application is
  compared with the expected workload statuses.
\<close>

definition spec_subordinate_verdict :: "ApplicationStatus \<Rightarrow> string set \<Rightarrow> bool" where
  "spec_subordinate_verdict application expected_workload =
     (case application_status application of
        None \<Rightarrow> False
      | Some st \<Rightarrow> status st \<in> expected_workload)"

section \<open>Exceptions, queues and tasks\<close>

text \<open>
  What \<^verbatim>\<open>model.get_status\<close> may raise: the connection to the controller was closed,
  or another error of the client library.
\<close>

datatype status_error = ConnectionClosedError string | ClientError string

text \<open>
  The exceptions that reach a watch task or the caller. The string of \<^verbatim>\<open>ValueError\<close>,
  \<^verbatim>\<open>TimeoutException\<close> and \<^verbatim>\<open>JujuWaitException\<close> is the message, and
  \<^verbatim>\<open>JujuWaitException\<close> carries the list of the exceptions of the tasks.
\<close>

datatype exc =
    ValueError string
  | QueueFull
  | StatusError status_error
  | TimeoutException string
  | JujuWaitException string "exc list"

text \<open>
  \<^verbatim>\<open>asyncio.Queue\<close> as the standard library defines it: \<^verbatim>\<open>maxsize <= 0\<close> is an
  unbounded queue, and \<^verbatim>\<open>put_nowait\<close> raises \<^verbatim>\<open>QueueFull\<close> on a full queue.
\<close>

record Queue =
  maxsize :: int
  queued :: "string list"

definition full :: "Queue \<Rightarrow> bool" where
  "full q = (if maxsize q \<le> 0 then False else maxsize q \<le> int (length (queued q)))"

definition put_nowait :: "Queue \<Rightarrow> string \<Rightarrow> exc + Queue" where
  "put_nowait q item = (if full q then Inl QueueFull else Inr (q\<lparr>queued := queued q @ [item]\<rparr>))"

text \<open>
  A task is still running (\<open>Pending\<close>), has returned, has raised, or has been cancelled.
  Cancelling a finished task changes nothing; a running watch task catches the
  \<^verbatim>\<open>CancelledError\<close> (lines 1219 and 1220), logs and ends without an exception.
\<close>

datatype task = Pending | Returned | Raised exc | Cancelled

fun cancel :: "task \<Rightarrow> task" where
  "cancel Pending = Cancelled"
| "cancel t = t"

text \<open>
  Python's \<^verbatim>\<open>repr\<close> of a string, for the characters a model name can hold (printable
  ASCII, and the escapes of backslash, quotes, newline, carriage return and tab).
\<close>

definition escape_char :: "char \<Rightarrow> char \<Rightarrow> string" where
  "escape_char quote c =
     (if c = CHR 0x5C then [CHR 0x5C, CHR 0x5C]
      else if c = quote then [CHR 0x5C, c]
      else if c = CHR 0x0A then [CHR 0x5C, CHR ''n'']
      else if c = CHR 0x0D then [CHR 0x5C, CHR ''r'']
      else if c = CHR 0x09 then [CHR 0x5C, CHR ''t'']
      else [c])"

definition repr_str :: "string \<Rightarrow> string" where
  "repr_str s =
     (let quote = (if CHR 0x27 \<in> set s \<and> CHR 0x22 \<notin> set s then CHR 0x22 else CHR 0x27)
      in [quote] @ concat (map (escape_char quote) s) @ [quote])"

text \<open>
  The characters that \<^verbatim>\<open>repr\<close> escapes or that change its quotes: backslash, the two
  quotes, newline, carriage return and tab. A model name holds none of them.
\<close>

definition special_chars :: "char set" where
  "special_chars = {CHR 0x5C, CHR 0x27, CHR 0x22, CHR 0x0A, CHR 0x0D, CHR 0x09}"

section \<open>The watch task \<^verbatim>\<open>_wait_until_status_coroutine\<close>\<close>

text \<open>
  What a call of \<^verbatim>\<open>model.get_status([app])\<close> gives: an exception or a snapshot. The
  first argument of the task is the list of the results of its successive fetches up to
  the moment the wait of the caller resolves; when the list ends, the task is still
  suspended in its loop. The task takes the queue and the number of fetches made
  so far, and returns both updated.
\<close>

type_synonym fetch = "status_error + FullStatus"

fun wait_until_status_coroutine ::
  "fetch list \<Rightarrow> string \<Rightarrow> string list option \<Rightarrow> Queue option \<Rightarrow> string set option
    \<Rightarrow> string list option \<Rightarrow> nat \<Rightarrow> task \<times> Queue option \<times> nat" where
  "wait_until_status_coroutine [] app unit_list queue expected_status expected_agent_status n =
     (Pending, queue, n)"
| "wait_until_status_coroutine (Inl e # rest) app unit_list queue expected_status
      expected_agent_status n =
     (Raised (StatusError e), queue, Suc n)"
| "wait_until_status_coroutine (Inr st # rest) app unit_list queue expected_status
      expected_agent_status n =
     (case applications st app of
        None \<Rightarrow> (Raised (ValueError (''Application '' @ app @ '' not found in status'')),
                 queue, Suc n)
      | Some application \<Rightarrow>
          if desired_status_reached application unit_list
               (case expected_status of None \<Rightarrow> {''active''} | Some s \<Rightarrow> s)
               expected_agent_status
          then (case queue of
                  None \<Rightarrow> (Returned, None, Suc n)
                | Some q \<Rightarrow>
                    (case put_nowait q app of
                       Inl e \<Rightarrow> (Raised e, queue, Suc n)
                     | Inr q' \<Rightarrow> (Returned, Some q', Suc n)))
          else wait_until_status_coroutine rest app unit_list queue expected_status
                 expected_agent_status (Suc n))"

text \<open>
  A fetch result on which the task loops again: a snapshot that holds the application
  and does not pass the check.
\<close>

definition not_ready ::
  "string \<Rightarrow> string list option \<Rightarrow> string set option \<Rightarrow> string list option \<Rightarrow> fetch \<Rightarrow> bool" where
  "not_ready app unit_list expected_status expected_agent_status f =
     (case f of
        Inl e \<Rightarrow> False
      | Inr st \<Rightarrow>
          (case applications st app of
             None \<Rightarrow> False
           | Some application \<Rightarrow>
               \<not> desired_status_reached application unit_list
                   (case expected_status of None \<Rightarrow> {''active''} | Some s \<Rightarrow> s)
                   expected_agent_status))"

text \<open>A fetch result that holds the application, and not as a subordinate.\<close>

definition present_not_subordinate :: "string \<Rightarrow> fetch \<Rightarrow> bool" where
  "present_not_subordinate app f =
     (case f of
        Inl e \<Rightarrow> False
      | Inr st \<Rightarrow>
          (case applications st app of
             None \<Rightarrow> False
           | Some application \<Rightarrow> subordinate_to application = []))"

section \<open>The waiter \<^verbatim>\<open>wait_until_desired_status\<close>\<close>

text \<open>Lines 1241 to 1244, and the test of line 1245.\<close>

definition wl_status_of :: "string list option \<Rightarrow> string set" where
  "wl_status_of status_arg = (case status_arg of None \<Rightarrow> {''active''} | Some s \<Rightarrow> set s)"

definition queue_undersized :: "Queue option \<Rightarrow> string list \<Rightarrow> bool" where
  "queue_undersized queue apps =
     (case queue of None \<Rightarrow> False | Some q \<Rightarrow> maxsize q < int (length apps))"

text \<open>The messages of lines 1276 to 1278 and 1294 to 1296.\<close>

definition timeout_message :: "string \<Rightarrow> string" where
  "timeout_message model = ''Timed out while waiting for model '' @ repr_str model @ '' to be ready''"

definition wait_error_message :: "string \<Rightarrow> string" where
  "wait_error_message model = ''Error while waiting for model '' @ repr_str model @ '' to be ready''"

text \<open>Python's \<^verbatim>\<open>a in b\<close> on strings: \<open>a\<close> occurs in \<open>b\<close>.\<close>

fun startswith :: "string \<Rightarrow> string \<Rightarrow> bool" where
  "startswith s [] = True"
| "startswith [] (p # ps) = False"
| "startswith (c # cs) (p # ps) = (c = p \<and> startswith cs ps)"

fun str_in :: "string \<Rightarrow> string \<Rightarrow> bool" where
  "str_in a [] = (a = [])"
| "str_in a (c # cs) = (startswith (c # cs) a \<or> str_in a cs)"

text \<open>Lines 1252 to 1254: the unit list handed to the task of \<open>app\<close>.\<close>

definition unit_list_of :: "string list option \<Rightarrow> string \<Rightarrow> string list option" where
  "unit_list_of units_arg app =
     (case units_arg of
        None \<Rightarrow> None
      | Some us \<Rightarrow> Some (filter (\<lambda>unit. str_in app unit) us))"

text \<open>
  Lines 1250 to 1269: one task per application, in the order of \<open>apps\<close>; \<open>env i\<close> is the
  list of fetch results of the task of index \<open>i\<close>. The tasks run on one event loop and
  \<^verbatim>\<open>put_nowait\<close> does not suspend, so the deliveries to the queue are serialised; the
  model serialises them in the order of the tasks. The result is the state of every
  task when the wait resolves.
\<close>

fun run_tasks ::
  "(nat \<Rightarrow> fetch list) \<Rightarrow> nat \<Rightarrow> string list \<Rightarrow> string list option \<Rightarrow> Queue option
    \<Rightarrow> string set \<Rightarrow> string list option \<Rightarrow> nat \<Rightarrow> task list \<times> Queue option \<times> nat" where
  "run_tasks env i [] units_arg queue wl_status agent_status_arg n = ([], queue, n)"
| "run_tasks env i (app # apps) units_arg queue wl_status agent_status_arg n =
     (case wait_until_status_coroutine (env i) app (unit_list_of units_arg app) queue
             (Some wl_status) agent_status_arg n of
        (t, queue', n') \<Rightarrow>
          (case run_tasks env (Suc i) apps units_arg queue' wl_status agent_status_arg n' of
             (ts, queue'', n'') \<Rightarrow> (t # ts, queue'', n'')))"

text \<open>
  The state of the tasks when the wait resolves. The argument \<^verbatim>\<open>timeout\<close> sets one
  deadline for the whole call; it has no counterpart of its own here, since \<open>env i\<close>
  lists what the task of index \<open>i\<close> fetches before that deadline: a task that is
  \<open>Pending\<close> is still running when the deadline comes.
\<close>

definition tasks_at_deadline ::
  "string list \<Rightarrow> string list option \<Rightarrow> string list option \<Rightarrow> string list option
    \<Rightarrow> Queue option \<Rightarrow> (nat \<Rightarrow> fetch list) \<Rightarrow> task list" where
  "tasks_at_deadline apps units_arg status_arg agent_status_arg queue env =
     fst (run_tasks env 0 apps units_arg queue (wl_status_of status_arg) agent_status_arg 0)"

text \<open>
  Lines 1272 to 1274: \<^verbatim>\<open>gather(..., return_exceptions=True)\<close> completes when every
  task has finished; \<^verbatim>\<open>wait_for\<close> raises \<^verbatim>\<open>asyncio.TimeoutError\<close> when a task is still
  running at the deadline, after cancelling the gathered tasks and waiting for them.
  The first component says whether the timeout was raised.
\<close>

definition wait_for_gather :: "task list \<Rightarrow> bool \<times> task list" where
  "wait_for_gather ts = (if Pending \<in> set ts then (True, map cancel ts) else (False, ts))"

text \<open>Lines 1280 to 1290: the loop of the \<^verbatim>\<open>finally\<close> block.\<close>

fun finally_loop :: "task list \<Rightarrow> exc list \<Rightarrow> task list \<times> exc list" where
  "finally_loop [] excs = ([], excs)"
| "finally_loop (t # ts) excs =
     (case finally_loop ts (case cancel t of Raised ex \<Rightarrow> excs @ [ex] | _ \<Rightarrow> excs) of
        (ts', excs') \<Rightarrow> (cancel t # ts', excs'))"

text \<open>
  What a call leaves behind: the exception or the normal return, the final state of
  every task it created, the queue, the number of status fetches, and whether the
  connection to the model was opened (line 1247). Opening the connection is taken to
  succeed: a failure there is raised by \<^verbatim>\<open>get_model_closing\<close> before any task exists.
\<close>

record WaitOutcome =
  result :: "exc + unit"
  tasks :: "task list"
  queue_after :: "Queue option"
  fetches :: nat
  model_opened :: bool

definition wait_until_desired_status ::
  "string \<Rightarrow> string list \<Rightarrow> string list option \<Rightarrow> string list option \<Rightarrow> string list option
    \<Rightarrow> Queue option \<Rightarrow> (nat \<Rightarrow> fetch list) \<Rightarrow> WaitOutcome" where
  "wait_until_desired_status model apps units_arg status_arg agent_status_arg queue env =
     (if queue_undersized queue apps then
        \<lparr>result = Inl (ValueError ''Queue size should be at least the number of applications''),
         tasks = [], queue_after = queue, fetches = 0, model_opened = False\<rparr>
      else
        (case run_tasks env 0 apps units_arg queue (wl_status_of status_arg)
                agent_status_arg 0 of
           (ts, queue', n) \<Rightarrow>
             (case wait_for_gather ts of
                (timed_out, ts') \<Rightarrow>
                  (case finally_loop ts' [] of
                     (ts'', excs) \<Rightarrow>
                       \<lparr>result =
                          (if timed_out then Inl (TimeoutException (timeout_message model))
                           else if excs \<noteq> [] then
                             Inl (JujuWaitException (wait_error_message model) excs)
                           else Inr ()),
                        tasks = ts'', queue_after = queue', fetches = n,
                        model_opened = True\<rparr>))))"

text \<open>The exceptions of the tasks that raised, in the order of the tasks.\<close>

fun exceptions_of :: "task list \<Rightarrow> exc list" where
  "exceptions_of [] = []"
| "exceptions_of (Raised ex # ts) = ex # exceptions_of ts"
| "exceptions_of (t # ts) = exceptions_of ts"

text \<open>The applications whose task returned, in the order of the tasks.\<close>

fun delivered :: "string list \<Rightarrow> task list \<Rightarrow> string list" where
  "delivered (app # apps) (Returned # ts) = app # delivered apps ts"
| "delivered (app # apps) (t # ts) = delivered apps ts"
| "delivered apps ts = []"

section \<open>Example snapshots\<close>

text \<open>
  The inputs of the examples below, built as the unit tests build theirs: a unit with a
  workload and an agent status, an application of one unit whose agent is idle, and the
  fetch that returns a snapshot holding one application.
\<close>

definition unit_with :: "string \<Rightarrow> string \<Rightarrow> UnitStatus" where
  "unit_with wl ag =
     \<lparr>workload_status = Some \<lparr>status = wl, info = []\<rparr>,
      agent_status = Some \<lparr>status = ag, info = []\<rparr>\<rparr>"

definition one_unit_app :: "string \<Rightarrow> string \<Rightarrow> ApplicationStatus" where
  "one_unit_app unit_name wl =
     \<lparr>units = [(unit_name, unit_with wl ''idle'')], subordinate_to = [],
      application_status = None, int_value = Some 1\<rparr>"

definition snapshot :: "string \<Rightarrow> ApplicationStatus \<Rightarrow> fetch" where
  "snapshot app application = Inr \<lparr>applications = [app \<mapsto> application]\<rparr>"

definition empty_snapshot :: fetch where
  "empty_snapshot = Inr \<lparr>applications = Map.empty\<rparr>"

section \<open>Properties of the task and of the waiter\<close>

text \<open>The task passes over every fetch result on which it loops again.\<close>

lemma coroutine_skip:
  "list_all (not_ready app ul es ag) pre \<Longrightarrow>
   wait_until_status_coroutine (pre @ rest) app ul q es ag n
     = wait_until_status_coroutine rest app ul q es ag (n + length pre)"
proof (induction pre arbitrary: n)
  case Nil
  show ?case by simp
next
  case (Cons f pre)
  from Cons.prems obtain st a where f: "f = Inr st" and a: "applications st app = Some a"
    and nr: "\<not> desired_status_reached a ul (case es of None \<Rightarrow> {''active''} | Some s \<Rightarrow> s) ag"
    by (auto simp: not_ready_def split: sum.splits option.splits)
  from Cons.prems have "list_all (not_ready app ul es ag) pre" by simp
  from Cons.IH[OF this, of "Suc n"] show ?case
    by (simp add: f a nr)
qed

lemma cancel_map_exceptions: "exceptions_of (map cancel ts) = exceptions_of ts"
  by (induction ts rule: exceptions_of.induct) simp_all

lemma finally_loop_eq:
  "finally_loop ts excs = (map cancel ts, excs @ exceptions_of ts)"
proof (induction ts arbitrary: excs)
  case Nil
  show ?case by simp
next
  case (Cons t ts)
  show ?case by (cases t) (simp_all add: Cons.IH)
qed

lemma cancel_cancel: "cancel (cancel t) = cancel t"
  by (cases t) simp_all

lemma cancel_idem: "map cancel (map cancel ts) = map cancel ts"
  by (simp add: cancel_cancel)

lemma no_pending_cancel: "Pending \<notin> set ts \<Longrightarrow> map cancel ts = ts"
proof (induction ts)
  case Nil
  show ?case by simp
next
  case (Cons t ts)
  then show ?case by (cases t) simp_all
qed

lemma pending_cancelled: "Pending \<notin> set (map cancel ts)"
proof (induction ts)
  case Nil
  show ?case by simp
next
  case (Cons t ts)
  then show ?case by (cases t) simp_all
qed

lemma run_tasks_Cons:
  "run_tasks env i (app # apps) u q wl ag n =
     (let c = wait_until_status_coroutine (env i) app (unit_list_of u app) q (Some wl) ag n;
          r = run_tasks env (Suc i) apps u (fst (snd c)) wl ag (snd (snd c))
      in (fst c # fst r, fst (snd r), snd (snd r)))"
  by (simp add: split_beta Let_def)

lemma run_tasks_length:
  "length (fst (run_tasks env i apps u q wl ag n)) = length apps"
proof (induction apps arbitrary: i q n)
  case Nil
  show ?case by simp
next
  case (Cons app apps)
  show ?case unfolding run_tasks_Cons by (simp add: Let_def Cons.IH)
qed

lemma run_tasks_nth:
  "k < length apps \<Longrightarrow>
   \<exists>q' n'. fst (run_tasks env i apps u q wl ag n) ! k
     = fst (wait_until_status_coroutine (env (i + k)) (apps ! k) (unit_list_of u (apps ! k)) q'
             (Some wl) ag n')"
proof (induction apps arbitrary: i k q n)
  case Nil
  then show ?case by simp
next
  case (Cons app apps)
  show ?case
  proof (cases k)
    case 0
    have "fst (run_tasks env i (app # apps) u q wl ag n) ! 0
            = fst (wait_until_status_coroutine (env i) app (unit_list_of u app) q (Some wl) ag n)"
      unfolding run_tasks_Cons by (simp add: Let_def)
    then show ?thesis using 0 by auto
  next
    case (Suc j)
    with Cons.prems have j: "j < length apps" by simp
    define c where "c = wait_until_status_coroutine (env i) app (unit_list_of u app) q (Some wl) ag n"
    from Cons.IH[OF j, of "Suc i" "fst (snd c)" "snd (snd c)"] obtain q' n' where
      "fst (run_tasks env (Suc i) apps u (fst (snd c)) wl ag (snd (snd c))) ! j
        = fst (wait_until_status_coroutine (env (Suc i + j)) (apps ! j) (unit_list_of u (apps ! j)) q' (Some wl) ag n')"
      by blast
    then have "fst (run_tasks env i (app # apps) u q wl ag n) ! k
        = fst (wait_until_status_coroutine (env (i + k)) ((app # apps) ! k) (unit_list_of u ((app # apps) ! k)) q' (Some wl) ag n')"
      unfolding run_tasks_Cons by (simp add: Let_def c_def Suc)
    then show ?thesis by blast
  qed
qed

lemma wait_result:
  "\<not> queue_undersized queue apps \<Longrightarrow>
   wait_until_desired_status model apps u s ag queue env =
     (let ts = tasks_at_deadline apps u s ag queue env;
          r = run_tasks env 0 apps u queue (wl_status_of s) ag 0 in
      \<lparr>result = (if Pending \<in> set ts then Inl (TimeoutException (timeout_message model))
                 else if exceptions_of ts \<noteq> [] then
                   Inl (JujuWaitException (wait_error_message model) (exceptions_of ts))
                 else Inr ()),
       tasks = map cancel ts, queue_after = fst (snd r), fetches = snd (snd r),
       model_opened = True\<rparr>)"
  by (simp add: wait_until_desired_status_def tasks_at_deadline_def wait_for_gather_def
        finally_loop_eq cancel_cancel cancel_map_exceptions Let_def split_beta)

lemma scope_pred:
  "(\<lambda>item. case ul of None \<Rightarrow> True | Some l \<Rightarrow> fst item \<in> set l)
     = (\<lambda>item. ul = None \<or> fst item \<in> set (the ul))"
  by (cases ul) auto

lemma collect_units_eq:
  "collect_units ul us (A, G) =
     (A \<union> set (map status (List.map_filter workload_status
              (map snd (filter (\<lambda>item. ul = None \<or> fst item \<in> set (the ul)) us)))),
      G \<union> set (map status (List.map_filter agent_status
              (map snd (filter (\<lambda>item. ul = None \<or> fst item \<in> set (the ul)) us)))))"
proof (induction us arbitrary: A G)
  case Nil
  show ?case by simp
next
  case (Cons item us)
  obtain name unit where item: "item = (name, unit)" by (cases item)
  show ?case
    by (cases "workload_status unit"; cases "agent_status unit")
       (auto simp: item Cons.IH)
qed

lemma length_scope:
  "int (length (spec_units_in_scope a ul)) = unit_count a ul"
  by (cases ul) (simp_all add: spec_units_in_scope_def unit_count_def filter_map comp_def)

lemma subordinate_collect:
  "subordinate_to application \<noteq> [] \<Longrightarrow>
   collect_status application unit_list =
     (case application_status application of None \<Rightarrow> ({}, {}) | Some st \<Rightarrow> ({status st}, {}))"
  by (simp add: collect_status_def)

section \<open>The verdict on one snapshot\<close>

text \<open>
  The check of one snapshot in the watch task holds exactly when (a) the number of units
  in scope equals the expected unit count, or that count is unknown, (b) at least one
  workload status was observed and every observed workload status is an expected one, and
  (c) every observed agent status is an expected one when agent statuses were given. That
  is the verdict of the specification with no status-message constraint.
\<close>

lemma desired_status_without_messages:
  "desired_status_reached application unit_list expected_status expected_agent_status
     \<longleftrightarrow> spec_verdict application unit_list expected_status expected_agent_status None"
  unfolding desired_status_reached_def spec_verdict_def unit_count_cond_def length_scope
  by (cases expected_agent_status)
     (auto simp: collect_status_def collect_units_eq spec_observed_workload_def
        spec_observed_agent_def spec_units_in_scope_def scope_pred split: option.splits)

text \<open>
  Claim C1 at the application of the fourth case of \<^verbatim>\<open>test_is_desired_status_achieved\<close>,
  watched with no unit list: the only unit is active and idle and reports the message
  \<^verbatim>\<open>Error\<close>, and the caller wants the message \<^verbatim>\<open>Ready\<close>. The check of the watch task
  has no argument for the wanted messages and holds, so that the task returns; the
  verdict of the specification, and the expected result of the test, is false.
\<close>

theorem status_message_ignored:
  "desired_status_reached
     \<lparr>units = [(''app1/0'', \<lparr>workload_status = Some \<lparr>status = ''active'', info = ''Error''\<rparr>,
                             agent_status = Some \<lparr>status = ''idle'', info = []\<rparr>\<rparr>)],
      subordinate_to = [], application_status = None, int_value = Some 1\<rparr>
     None {''active''} (Some [''idle''])
   \<and> \<not> spec_verdict
     \<lparr>units = [(''app1/0'', \<lparr>workload_status = Some \<lparr>status = ''active'', info = ''Error''\<rparr>,
                             agent_status = Some \<lparr>status = ''idle'', info = []\<rparr>\<rparr>)],
      subordinate_to = [], application_status = None, int_value = Some 1\<rparr>
     None {''active''} (Some [''idle'']) (Some {''Ready''})"
  by (simp add: desired_status_reached_def unit_count_cond_def expected_unit_count_def
        unit_count_def collect_status_def spec_verdict_def spec_units_in_scope_def
        spec_observed_workload_def spec_observed_agent_def)

text \<open>
  Claim C2, as the code has it. For a subordinate the check compares the status of the
  application with the expected workload statuses and never looks at an agent status,
  but the unit-count condition still has to hold.
\<close>

theorem subordinate_status:
  "subordinate_to application \<noteq> [] \<Longrightarrow>
   desired_status_reached application unit_list expected_status expected_agent_status
     \<longleftrightarrow> unit_count_cond application unit_list
         \<and> spec_subordinate_verdict application expected_status"
  by (cases "application_status application")
     (auto simp: desired_status_reached_def subordinate_collect spec_subordinate_verdict_def)

theorem subordinate_status_witness:
  "desired_status_reached
     \<lparr>units = [], subordinate_to = [''nova-compute''],
      application_status = Some \<lparr>status = ''active'', info = []\<rparr>, int_value = None\<rparr>
     None {''active''} (Some [''idle''])"
  using subordinate_status [of
     "\<lparr>units = [], subordinate_to = [''nova-compute''],
      application_status = Some \<lparr>status = ''active'', info = []\<rparr>, int_value = None\<rparr>"
     None "{''active''}" "Some [''idle'']"]
  by (simp add: unit_count_cond_def expected_unit_count_def spec_subordinate_verdict_def)

text \<open>
  Claim C2 as stated fails: a subordinate whose status is expected, watched with a unit
  list of one name, never passes the check, since none of its units is counted.
\<close>

theorem subordinate_unit_count_counterexample:
  "spec_subordinate_verdict
     \<lparr>units = [], subordinate_to = [''nova-compute''],
      application_status = Some \<lparr>status = ''active'', info = []\<rparr>, int_value = None\<rparr>
     {''active''}
   \<and> \<not> desired_status_reached
     \<lparr>units = [], subordinate_to = [''nova-compute''],
      application_status = Some \<lparr>status = ''active'', info = []\<rparr>, int_value = None\<rparr>
     (Some [''ovn-chassis/0'']) {''active''} None"
  by (simp add: desired_status_reached_def unit_count_cond_def expected_unit_count_def
        unit_count_def spec_subordinate_verdict_def)

lemmas example_defs = unit_with_def one_unit_app_def snapshot_def empty_snapshot_def
lemmas check_defs = desired_status_reached_def collect_status_def unit_count_cond_def
  expected_unit_count_def unit_count_def
lemmas waiter_defs = queue_undersized_def tasks_at_deadline_def wl_status_of_def unit_list_of_def
  timeout_message_def wait_error_message_def repr_str_def escape_char_def Let_def

section \<open>Timeout\<close>

text \<open>For a name without special characters, \<^verbatim>\<open>repr\<close> is the name between quotes.\<close>

lemma escape_plain:
  "set s \<inter> special_chars = {} \<Longrightarrow> concat (map (escape_char (CHR 0x27)) s) = s"
  by (induction s) (auto simp: escape_char_def special_chars_def)

lemma repr_str_plain:
  assumes "set s \<inter> special_chars = {}"
  shows "repr_str s = [CHR 0x27] @ s @ [CHR 0x27]"
proof -
  from assms have "CHR 0x27 \<notin> set s" by (auto simp: special_chars_def)
  then show ?thesis by (simp add: repr_str_def Let_def escape_plain[OF assms])
qed

text \<open>
  Claim C3. The wait has one deadline for all the tasks. When a task is still running at
  the deadline, the call raises \<^verbatim>\<open>TimeoutException\<close>, whatever the other tasks did. Its
  message holds \<^verbatim>\<open>repr(model)\<close>, which for a name without special characters is the
  name of the model between quotes. Every task that was running has been cancelled, so
  that no task of the call is left running.
\<close>

theorem timeout_cancels_all:
  assumes "\<not> queue_undersized queue apps"
    and "Pending \<in> set (tasks_at_deadline apps units_arg status_arg agent_status_arg queue env)"
  shows "result (wait_until_desired_status model apps units_arg status_arg agent_status_arg queue env)
           = Inl (TimeoutException
                   (''Timed out while waiting for model '' @ repr_str model @ '' to be ready''))
       \<and> (set model \<inter> special_chars = {} \<longrightarrow>
            result (wait_until_desired_status model apps units_arg status_arg agent_status_arg
                      queue env)
              = Inl (TimeoutException
                      (''Timed out while waiting for model '' @ [CHR 0x27] @ model @ [CHR 0x27]
                       @ '' to be ready'')))
       \<and> tasks (wait_until_desired_status model apps units_arg status_arg agent_status_arg queue env)
           = map cancel (tasks_at_deadline apps units_arg status_arg agent_status_arg queue env)
       \<and> Pending \<notin> set (tasks (wait_until_desired_status model apps units_arg status_arg
                                   agent_status_arg queue env))
       \<and> length (tasks (wait_until_desired_status model apps units_arg status_arg
                                   agent_status_arg queue env)) = length apps"
proof -
  let ?w = "wait_until_desired_status model apps units_arg status_arg agent_status_arg queue env"
  let ?ts = "tasks_at_deadline apps units_arg status_arg agent_status_arg queue env"
  have r: "result ?w = Inl (TimeoutException
                   (''Timed out while waiting for model '' @ repr_str model @ '' to be ready''))"
    using assms by (simp add: wait_result Let_def timeout_message_def)
  have n: "set model \<inter> special_chars = {} \<longrightarrow>
            result ?w = Inl (TimeoutException
                      (''Timed out while waiting for model '' @ [CHR 0x27] @ model @ [CHR 0x27]
                       @ '' to be ready''))"
    unfolding r by (simp add: repr_str_plain)
  have t: "tasks ?w = map cancel ?ts"
    using assms(1) by (simp add: wait_result Let_def)
  have p: "Pending \<notin> set (tasks ?w)"
    unfolding t by (rule pending_cancelled)
  have l: "length (tasks ?w) = length apps"
    unfolding t by (simp add: tasks_at_deadline_def run_tasks_length)
  from r n t p l show ?thesis by blast
qed

text \<open>One application is ready, the other one is blocked when the deadline comes.\<close>

theorem timeout_cancels_all_witness:
  "result (wait_until_desired_status ''control-plane'' [''keystone'', ''nova''] None None None None
      (\<lambda>i. if i = 0 then [snapshot ''keystone'' (one_unit_app ''keystone/0'' ''active'')]
            else [snapshot ''nova'' (one_unit_app ''nova/0'' ''blocked'')]))
     = Inl (TimeoutException (''Timed out while waiting for model '' @ [CHR 0x27] @ ''control-plane''
                               @ [CHR 0x27] @ '' to be ready''))
   \<and> tasks (wait_until_desired_status ''control-plane'' [''keystone'', ''nova''] None None None None
      (\<lambda>i. if i = 0 then [snapshot ''keystone'' (one_unit_app ''keystone/0'' ''active'')]
            else [snapshot ''nova'' (one_unit_app ''nova/0'' ''blocked'')]))
     = [Returned, Cancelled]"
  using timeout_cancels_all [of None "[''keystone'', ''nova'']" None None None
      "(\<lambda>i. if i = 0 then [snapshot ''keystone'' (one_unit_app ''keystone/0'' ''active'')]
            else [snapshot ''nova'' (one_unit_app ''nova/0'' ''blocked'')])"
      "''control-plane''"]
  by (simp add: example_defs check_defs waiter_defs special_chars_def)

section \<open>Exceptions of the tasks\<close>

text \<open>
  Claim C4, as the code has it. When every task has finished before the deadline and at
  least one of them raised, the call raises one \<^verbatim>\<open>JujuWaitException\<close> that carries the
  exceptions of all the tasks that raised, in the order of the tasks, and the other tasks
  add nothing to it.
\<close>

theorem aggregate_exception:
  assumes "\<not> queue_undersized queue apps"
    and "Pending \<notin> set (tasks_at_deadline apps units_arg status_arg agent_status_arg queue env)"
    and "exceptions_of (tasks_at_deadline apps units_arg status_arg agent_status_arg queue env) \<noteq> []"
  shows "result (wait_until_desired_status model apps units_arg status_arg agent_status_arg queue env)
           = Inl (JujuWaitException (wait_error_message model)
                   (exceptions_of (tasks_at_deadline apps units_arg status_arg agent_status_arg
                                     queue env)))
       \<and> tasks (wait_until_desired_status model apps units_arg status_arg agent_status_arg queue env)
           = tasks_at_deadline apps units_arg status_arg agent_status_arg queue env"
  using assms by (simp add: wait_result Let_def no_pending_cancel)

text \<open>Two of three applications are unknown and the third one is ready: two errors.\<close>

theorem aggregate_exception_witness:
  "result (wait_until_desired_status ''m'' [''mysql'', ''keystone'', ''nova''] None None None None
      (\<lambda>i. if i = 1 then [snapshot ''keystone'' (one_unit_app ''keystone/0'' ''active'')]
            else [empty_snapshot]))
     = Inl (JujuWaitException (wait_error_message ''m'')
              [ValueError ''Application mysql not found in status'',
               ValueError ''Application nova not found in status''])
   \<and> tasks (wait_until_desired_status ''m'' [''mysql'', ''keystone'', ''nova''] None None None None
      (\<lambda>i. if i = 1 then [snapshot ''keystone'' (one_unit_app ''keystone/0'' ''active'')]
            else [empty_snapshot]))
     = [Raised (ValueError ''Application mysql not found in status''), Returned,
        Raised (ValueError ''Application nova not found in status'')]"
  using aggregate_exception [of None "[''mysql'', ''keystone'', ''nova'']" None None None
      "(\<lambda>i. if i = 1 then [snapshot ''keystone'' (one_unit_app ''keystone/0'' ''active'')]
            else [empty_snapshot])" "''m''"]
  by (simp add: example_defs check_defs queue_undersized_def tasks_at_deadline_def
        wl_status_of_def unit_list_of_def)

text \<open>
  Claim C4 as stated fails: two of three tasks raise, the third one is still running at
  the deadline and is cancelled; the call raises \<^verbatim>\<open>TimeoutException\<close> and the two
  exceptions are only logged.
\<close>

theorem dropped_exceptions_counterexample:
  "tasks_at_deadline [''mysql'', ''keystone'', ''nova''] None None None None
      (\<lambda>i. if i = 1 then [snapshot ''keystone'' (one_unit_app ''keystone/0'' ''blocked'')]
            else [empty_snapshot])
     = [Raised (ValueError ''Application mysql not found in status''), Pending,
        Raised (ValueError ''Application nova not found in status'')]
   \<and> result (wait_until_desired_status ''m'' [''mysql'', ''keystone'', ''nova''] None None None None
      (\<lambda>i. if i = 1 then [snapshot ''keystone'' (one_unit_app ''keystone/0'' ''blocked'')]
            else [empty_snapshot]))
     = Inl (TimeoutException (timeout_message ''m''))"
  by (simp add: wait_until_desired_status_def wait_for_gather_def example_defs check_defs
        queue_undersized_def tasks_at_deadline_def wl_status_of_def unit_list_of_def)

lemma raised_in_exceptions: "Raised e \<in> set ts \<Longrightarrow> e \<in> set (exceptions_of ts)"
  by (induction ts rule: exceptions_of.induct) auto

lemma missing_application_task:
  assumes "list_all (not_ready app ul es ag) pre" and "applications st app = None"
  shows "wait_until_status_coroutine (pre @ Inr st # post) app ul q es ag n
           = (Raised (ValueError (''Application '' @ app @ '' not found in status'')), q,
              Suc (n + length pre))"
  using assms by (simp add: coroutine_skip)

text \<open>
  Claim C5, as the code has it. A task that fetches a snapshot without its application
  raises \<^verbatim>\<open>ValueError\<close> at once, whatever the later fetches would give. The call
  reports it in its \<^verbatim>\<open>JujuWaitException\<close> when every task has finished before the
  deadline, as is the case when the application is the only one watched; when another
  task is still running at the deadline, the call raises \<^verbatim>\<open>TimeoutException\<close>.
\<close>

theorem missing_application:
  assumes "\<not> queue_undersized queue apps"
    and "i < length apps"
    and "env i = pre @ Inr st # post"
    and "list_all (not_ready (apps ! i) (unit_list_of units_arg (apps ! i))
                     (Some (wl_status_of status_arg)) agent_status_arg) pre"
    and "applications st (apps ! i) = None"
  shows "tasks_at_deadline apps units_arg status_arg agent_status_arg queue env ! i
           = Raised (ValueError (''Application '' @ apps ! i @ '' not found in status''))
       \<and> (if Pending \<in> set (tasks_at_deadline apps units_arg status_arg agent_status_arg queue env)
          then result (wait_until_desired_status model apps units_arg status_arg agent_status_arg
                         queue env) = Inl (TimeoutException (timeout_message model))
          else result (wait_until_desired_status model apps units_arg status_arg agent_status_arg
                         queue env)
                 = Inl (JujuWaitException (wait_error_message model)
                         (exceptions_of (tasks_at_deadline apps units_arg status_arg
                                           agent_status_arg queue env)))
               \<and> ValueError (''Application '' @ apps ! i @ '' not found in status'')
                   \<in> set (exceptions_of (tasks_at_deadline apps units_arg status_arg
                                            agent_status_arg queue env)))"
proof -
  let ?ts = "tasks_at_deadline apps units_arg status_arg agent_status_arg queue env"
  let ?e = "ValueError (''Application '' @ apps ! i @ '' not found in status'')"
  from run_tasks_nth[OF assms(2), of env 0 units_arg queue "wl_status_of status_arg"
      agent_status_arg 0]
  obtain q' n' where "?ts ! i = fst (wait_until_status_coroutine (env i) (apps ! i)
      (unit_list_of units_arg (apps ! i)) q' (Some (wl_status_of status_arg)) agent_status_arg n')"
    by (auto simp: tasks_at_deadline_def)
  then have nth: "?ts ! i = Raised ?e"
    by (simp add: assms(3) missing_application_task[OF assms(4) assms(5)])
  have len: "i < length ?ts"
    using assms(2) by (simp add: tasks_at_deadline_def run_tasks_length)
  have "Raised ?e \<in> set ?ts"
    using nth len by (metis nth_mem)
  then have mem: "?e \<in> set (exceptions_of ?ts)"
    by (rule raised_in_exceptions)
  then have ne: "exceptions_of ?ts \<noteq> []" by auto
  show ?thesis
    using assms(1) nth mem ne by (simp add: wait_result Let_def)
qed

theorem missing_application_witness:
  "result (wait_until_desired_status ''m'' [''mysql''] None None None None (\<lambda>i. [empty_snapshot]))
     = Inl (JujuWaitException (wait_error_message ''m'')
              [ValueError ''Application mysql not found in status''])"
  using missing_application [of None "[''mysql'']" 0 "\<lambda>i. [empty_snapshot]" "[]"
      "\<lparr>applications = Map.empty\<rparr>" "[]" None None None "''m''"]
  by (simp add: example_defs queue_undersized_def tasks_at_deadline_def wl_status_of_def
        unit_list_of_def)

text \<open>
  Claim C5 as stated fails: \<^verbatim>\<open>mysql\<close> is unknown, \<^verbatim>\<open>keystone\<close> stays blocked, and the
  call ends with the timeout.
\<close>

theorem missing_application_timeout_counterexample:
  "tasks_at_deadline [''mysql'', ''keystone''] None None None None
      (\<lambda>i. if i = 0 then [empty_snapshot]
            else [snapshot ''keystone'' (one_unit_app ''keystone/0'' ''blocked'')])
     = [Raised (ValueError ''Application mysql not found in status''), Pending]
   \<and> result (wait_until_desired_status ''m'' [''mysql'', ''keystone''] None None None None
      (\<lambda>i. if i = 0 then [empty_snapshot]
            else [snapshot ''keystone'' (one_unit_app ''keystone/0'' ''blocked'')]))
     = Inl (TimeoutException (timeout_message ''m''))"
  by (simp add: wait_until_desired_status_def wait_for_gather_def example_defs check_defs
        queue_undersized_def tasks_at_deadline_def wl_status_of_def unit_list_of_def)

lemma put_nowait_space:
  "int (length (queued q)) < maxsize q \<Longrightarrow>
   put_nowait q item = Inr (q\<lparr>queued := queued q @ [item]\<rparr>)"
  by (simp add: put_nowait_def full_def)

lemma coroutine_queue:
  assumes "int (length (queued q)) < maxsize q"
  shows "fst (wait_until_status_coroutine fs app ul (Some q) es ag n) \<noteq> Raised QueueFull
       \<and> fst (snd (wait_until_status_coroutine fs app ul (Some q) es ag n))
           = Some (q\<lparr>queued := queued q
                       @ (if fst (wait_until_status_coroutine fs app ul (Some q) es ag n) = Returned
                          then [app] else [])\<rparr>)"
proof (induction fs arbitrary: n)
  case Nil
  show ?case by simp
next
  case (Cons f fs)
  show ?case
  proof (cases f)
    case (Inl e)
    then show ?thesis by simp
  next
    case (Inr st)
    show ?thesis
    proof (cases "applications st app")
      case None
      then show ?thesis by (simp add: Inr)
    next
      case (Some a)
      show ?thesis
        using Cons.IH[of "Suc n"] by (simp add: Inr Some put_nowait_space[OF assms])
    qed
  qed
qed

lemma delivered_Cons:
  "delivered (app # apps) (t # ts) = (if t = Returned then [app] else []) @ delivered apps ts"
  by (cases t) simp_all

lemma run_tasks_queue:
  "int (length (queued q)) + int (length apps) \<le> maxsize q \<Longrightarrow>
   Raised QueueFull \<notin> set (fst (run_tasks env i apps u (Some q) wl ag n))
   \<and> fst (snd (run_tasks env i apps u (Some q) wl ag n))
       = Some (q\<lparr>queued := queued q
                   @ delivered apps (fst (run_tasks env i apps u (Some q) wl ag n))\<rparr>)"
proof (induction apps arbitrary: i q n)
  case Nil
  show ?case by simp
next
  case (Cons app apps)
  define c where "c = wait_until_status_coroutine (env i) app (unit_list_of u app) (Some q)
                        (Some wl) ag n"
  define q1 where "q1 = q\<lparr>queued := queued q @ (if fst c = Returned then [app] else [])\<rparr>"
  from Cons.prems have space: "int (length (queued q)) < maxsize q" by simp
  from coroutine_queue[OF space, of "env i" app "unit_list_of u app" "Some wl" ag n]
  have c1: "fst c \<noteq> Raised QueueFull" and c2: "fst (snd c) = Some q1"
    by (simp_all add: c_def q1_def)
  from Cons.prems have "int (length (queued q1)) + int (length apps) \<le> maxsize q1"
    by (simp add: q1_def)
  from Cons.IH[OF this, of "Suc i" "snd (snd c)"]
  have r1: "Raised QueueFull \<notin> set (fst (run_tasks env (Suc i) apps u (Some q1) wl ag (snd (snd c))))"
    and r2: "fst (snd (run_tasks env (Suc i) apps u (Some q1) wl ag (snd (snd c))))
       = Some (q1\<lparr>queued := queued q1
                   @ delivered apps (fst (run_tasks env (Suc i) apps u (Some q1) wl ag (snd (snd c))))\<rparr>)"
    by simp_all
  show ?case
    unfolding run_tasks_Cons
    using c1 c2 r1 r2
    by (simp add: Let_def c_def[symmetric] delivered_Cons q1_def)
qed

lemma delivered_cancel: "delivered apps (map cancel ts) = delivered apps ts"
  by (induction apps ts rule: delivered.induct) simp_all

lemma raised_cancel: "Raised e \<in> set (map cancel ts) \<longleftrightarrow> Raised e \<in> set ts"
proof (induction ts)
  case Nil
  show ?case by simp
next
  case (Cons t ts)
  then show ?case by (cases t) auto
qed

section \<open>The result queue\<close>

text \<open>
  What the test of line 1245 gives. A queue whose \<^verbatim>\<open>maxsize\<close> is below the number of
  applications makes the call raise \<^verbatim>\<open>ValueError\<close> before the connection to the model
  is opened, before a task is created and before a status is fetched. A queue with at
  least as many free places as there are applications never makes a task raise
  \<^verbatim>\<open>QueueFull\<close>, and receives the name of every application whose task returned.
\<close>

lemma queue_precondition:
  "(queue_undersized queue apps \<longrightarrow>
      wait_until_desired_status model apps units_arg status_arg agent_status_arg queue env
        = \<lparr>result = Inl (ValueError ''Queue size should be at least the number of applications''),
           tasks = [], queue_after = queue, fetches = 0, model_opened = False\<rparr>)
   \<and> (queue = Some q \<and> int (length (queued q)) + int (length apps) \<le> maxsize q \<longrightarrow>
      Raised QueueFull \<notin> set (tasks (wait_until_desired_status model apps units_arg status_arg
                                       agent_status_arg queue env))
      \<and> queue_after (wait_until_desired_status model apps units_arg status_arg
                        agent_status_arg queue env)
          = Some (q\<lparr>queued := queued q
                      @ delivered apps (tasks (wait_until_desired_status model apps units_arg
                                                 status_arg agent_status_arg queue env))\<rparr>))"
proof (intro conjI impI)
  assume "queue_undersized queue apps"
  then show "wait_until_desired_status model apps units_arg status_arg agent_status_arg queue env
        = \<lparr>result = Inl (ValueError ''Queue size should be at least the number of applications''),
           tasks = [], queue_after = queue, fetches = 0, model_opened = False\<rparr>"
    by (simp add: wait_until_desired_status_def)
next
  assume a: "queue = Some q \<and> int (length (queued q)) + int (length apps) \<le> maxsize q"
  then have ok: "\<not> queue_undersized queue apps"
    by (simp add: queue_undersized_def)
  from a run_tasks_queue[of q apps env 0 units_arg "wl_status_of status_arg" agent_status_arg 0]
  have r1: "Raised QueueFull \<notin> set (tasks_at_deadline apps units_arg status_arg agent_status_arg queue env)"
    and r2: "fst (snd (run_tasks env 0 apps units_arg queue (wl_status_of status_arg) agent_status_arg 0))
       = Some (q\<lparr>queued := queued q
                   @ delivered apps (tasks_at_deadline apps units_arg status_arg agent_status_arg queue env)\<rparr>)"
    by (simp_all add: tasks_at_deadline_def)
  have t: "tasks (wait_until_desired_status model apps units_arg status_arg agent_status_arg queue env)
             = map cancel (tasks_at_deadline apps units_arg status_arg agent_status_arg queue env)"
    by (simp add: wait_result[OF ok] Let_def)
  show "Raised QueueFull \<notin> set (tasks (wait_until_desired_status model apps units_arg status_arg
                                       agent_status_arg queue env))"
    using r1 raised_cancel[of QueueFull "tasks_at_deadline apps units_arg status_arg agent_status_arg queue env"]
    unfolding t by blast
  show "queue_after (wait_until_desired_status model apps units_arg status_arg
                        agent_status_arg queue env)
          = Some (q\<lparr>queued := queued q
                      @ delivered apps (tasks (wait_until_desired_status model apps units_arg
                                                 status_arg agent_status_arg queue env))\<rparr>)"
    using r2 unfolding t by (simp add: wait_result[OF ok] Let_def delivered_cancel)
qed

text \<open>
  Claim C6 at a queue of \<^verbatim>\<open>maxsize\<close> 1 that already holds an item, for one application
  that is ready in its first snapshot. The test of line 1245 compares \<^verbatim>\<open>maxsize\<close>, not
  the free places, with the number of applications, and lets the call pass; the delivery
  of lines 1213 to 1216, whose comment says that it should never throw \<^verbatim>\<open>QueueFull\<close>,
  raises it, and the call ends with \<^verbatim>\<open>JujuWaitException\<close>.
\<close>

theorem prefilled_queue_full:
  "\<not> queue_undersized (Some \<lparr>maxsize = 1, queued = [''glance'']\<rparr>) [''keystone'']
   \<and> tasks (wait_until_desired_status ''m'' [''keystone''] None None None
        (Some \<lparr>maxsize = 1, queued = [''glance'']\<rparr>)
        (\<lambda>i. [snapshot ''keystone'' (one_unit_app ''keystone/0'' ''active'')]))
       = [Raised QueueFull]
   \<and> result (wait_until_desired_status ''m'' [''keystone''] None None None
        (Some \<lparr>maxsize = 1, queued = [''glance'']\<rparr>)
        (\<lambda>i. [snapshot ''keystone'' (one_unit_app ''keystone/0'' ''active'')]))
       = Inl (JujuWaitException (wait_error_message ''m'') [QueueFull])"
  by (simp add: wait_until_desired_status_def wait_for_gather_def example_defs check_defs
        queue_undersized_def wl_status_of_def unit_list_of_def put_nowait_def full_def)

section \<open>Status fetches\<close>

text \<open>
  Claim C7 at the input of \<^verbatim>\<open>test_tick_status_retries_on_connection_closed_error\<close>: the
  first fetch raises \<^verbatim>\<open>ConnectionClosedError\<close> and the second one would return a
  snapshot in which the application is ready. The task does not fetch again: it raises
  the error after one fetch, and the call raises \<^verbatim>\<open>JujuWaitException\<close>.
\<close>

theorem connection_closed_surfaces:
  "wait_until_desired_status ''control-plane'' [''app1''] None None None None
      (\<lambda>i. [Inl (ConnectionClosedError ''Test error''),
             snapshot ''app1'' (one_unit_app ''app1/0'' ''active'')])
     = \<lparr>result = Inl (JujuWaitException (wait_error_message ''control-plane'')
                       [StatusError (ConnectionClosedError ''Test error'')]),
        tasks = [Raised (StatusError (ConnectionClosedError ''Test error''))],
        queue_after = None, fetches = 1, model_opened = True\<rparr>"
  by (simp add: wait_until_desired_status_def wait_for_gather_def queue_undersized_def)

text \<open>
  Claim C8 at a call with two applications that are ready in their first snapshot: each
  task fetches the status itself, two fetches for two consumers.
\<close>

theorem one_fetch_per_task:
  "wait_until_desired_status ''control-plane'' [''keystone'', ''nova''] None None None None
      (\<lambda>i. if i = 0 then [snapshot ''keystone'' (one_unit_app ''keystone/0'' ''active'')]
            else [snapshot ''nova'' (one_unit_app ''nova/0'' ''active'')])
     = \<lparr>result = Inr (), tasks = [Returned, Returned], queue_after = None, fetches = 2,
        model_opened = True\<rparr>"
  by (simp add: wait_until_desired_status_def wait_for_gather_def example_defs check_defs
        queue_undersized_def wl_status_of_def unit_list_of_def)

lemma startswith_iff: "startswith s p \<longleftrightarrow> (\<exists>post. s = p @ post)"
  by (induction s p rule: startswith.induct) auto

lemma str_in_iff: "str_in a b \<longleftrightarrow> (\<exists>pre post. b = pre @ a @ post)"
proof (induction b)
  case Nil
  show ?case by auto
next
  case (Cons c cs)
  show ?case
  proof
    assume "str_in a (c # cs)"
    then consider "startswith (c # cs) a" | "str_in a cs" by auto
    then show "\<exists>pre post. c # cs = pre @ a @ post"
    proof cases
      case 1
      then obtain post where "c # cs = a @ post" by (auto simp: startswith_iff)
      then have "c # cs = [] @ a @ post" by simp
      then show ?thesis by blast
    next
      case 2
      with Cons.IH obtain pre post where "cs = pre @ a @ post" by blast
      then have "c # cs = (c # pre) @ a @ post" by simp
      then show ?thesis by blast
    qed
  next
    assume "\<exists>pre post. c # cs = pre @ a @ post"
    then obtain pre post where e: "c # cs = pre @ a @ post" by blast
    show "str_in a (c # cs)"
    proof (cases pre)
      case Nil
      with e have "startswith (c # cs) a" by (auto simp: startswith_iff)
      then show ?thesis by simp
    next
      case (Cons x pre')
      with e have "cs = pre' @ a @ post" by simp
      with Cons.IH have "str_in a cs" by blast
      then show ?thesis by simp
    qed
  qed
qed

section \<open>Unit lists\<close>

text \<open>
  Claim C9. With no \<^verbatim>\<open>units\<close> argument a task has no unit list. With one, the unit
  list of the task of an application holds exactly the listed units whose name contains
  the name of the application anywhere.
\<close>

theorem unit_attribution:
  "unit_list_of None app = None
   \<and> (\<exists>l. unit_list_of (Some us) app = Some l
          \<and> (\<forall>u. u \<in> set l \<longleftrightarrow> u \<in> set us \<and> (\<exists>pre post. u = pre @ app @ post)))"
  by (simp add: unit_list_of_def str_in_iff)

text \<open>The unit \<^verbatim>\<open>nova-compute/0\<close> goes to the task of \<^verbatim>\<open>nova\<close>.\<close>

theorem unit_attribution_witness:
  "unit_list_of (Some [''nova-compute/0'', ''keystone/0'', ''nova/0'']) ''nova''
     = Some [''nova-compute/0'', ''nova/0'']
   \<and> (\<exists>pre post. ''nova-compute/0'' = pre @ ''nova'' @ post)"
proof -
  from unit_attribution [of "''nova''" "[''nova-compute/0'', ''keystone/0'', ''nova/0'']"]
  obtain l where l: "unit_list_of (Some [''nova-compute/0'', ''keystone/0'', ''nova/0'']) ''nova'' = Some l"
    and m: "\<forall>u. u \<in> set l \<longleftrightarrow> u \<in> set [''nova-compute/0'', ''keystone/0'', ''nova/0'']
                 \<and> (\<exists>pre post. u = pre @ ''nova'' @ post)"
    by blast
  have v: "unit_list_of (Some [''nova-compute/0'', ''keystone/0'', ''nova/0'']) ''nova''
     = Some [''nova-compute/0'', ''nova/0'']"
    by (simp add: unit_list_of_def)
  with l have "l = [''nova-compute/0'', ''nova/0'']" by simp
  then have "''nova-compute/0'' \<in> set l" by simp
  with m have "\<exists>pre post. ''nova-compute/0'' = pre @ ''nova'' @ post" by blast
  with v show ?thesis by blast
qed

lemma empty_unit_list_never_reached:
  "subordinate_to application = [] \<Longrightarrow>
   \<not> desired_status_reached application (Some []) expected_status expected_agent_status"
  by (simp add: desired_status_reached_def collect_status_def collect_units_eq)

lemma present_not_ready:
  "present_not_subordinate app f \<Longrightarrow> not_ready app (Some []) es ag f"
  by (auto simp: present_not_subordinate_def not_ready_def empty_unit_list_never_reached
        split: sum.splits option.splits)

lemma never_ready_pending:
  "list_all (not_ready app ul es ag) fs \<Longrightarrow>
   wait_until_status_coroutine fs app ul q es ag n = (Pending, q, n + length fs)"
  using coroutine_skip[of app ul es ag fs "[]" q n] by simp

lemma no_unit_list: "list_all (\<lambda>unit. \<not> str_in app unit) us \<Longrightarrow> unit_list_of (Some us) app = Some []"
  by (simp add: unit_list_of_def list_all_iff)

text \<open>
  Claim C10. In a call that passes the test of the queue, with a \<^verbatim>\<open>units\<close> argument
  none of whose names contains the application at index \<open>i\<close>, and with every snapshot
  fetched for that application holding it as an application that is not a subordinate:
  the unit list of its task is empty, the task is still running at the deadline whatever
  the snapshots are and however many there are, and the call raises
  \<^verbatim>\<open>TimeoutException\<close>.
\<close>

theorem unlisted_application_times_out:
  assumes "\<not> queue_undersized queue apps"
    and "i < length apps"
    and "list_all (\<lambda>unit. \<not> str_in (apps ! i) unit) us"
    and "list_all (present_not_subordinate (apps ! i)) (env i)"
  shows "unit_list_of (Some us) (apps ! i) = Some []
       \<and> tasks_at_deadline apps (Some us) status_arg agent_status_arg queue env ! i = Pending
       \<and> result (wait_until_desired_status model apps (Some us) status_arg agent_status_arg queue env)
           = Inl (TimeoutException (timeout_message model))"
proof -
  let ?ts = "tasks_at_deadline apps (Some us) status_arg agent_status_arg queue env"
  have ul: "unit_list_of (Some us) (apps ! i) = Some []"
    using assms(3) by (rule no_unit_list)
  have nr: "list_all (not_ready (apps ! i) (Some []) (Some (wl_status_of status_arg))
                        agent_status_arg) (env i)"
    using assms(4) by (simp add: list_all_iff present_not_ready)
  from run_tasks_nth[OF assms(2), of env 0 "Some us" queue "wl_status_of status_arg"
      agent_status_arg 0]
  obtain q' n' where "?ts ! i = fst (wait_until_status_coroutine (env i) (apps ! i)
      (unit_list_of (Some us) (apps ! i)) q' (Some (wl_status_of status_arg)) agent_status_arg n')"
    by (auto simp: tasks_at_deadline_def)
  then have nth: "?ts ! i = Pending"
    by (simp add: ul never_ready_pending[OF nr])
  have len: "i < length ?ts"
    using assms(2) by (simp add: tasks_at_deadline_def run_tasks_length)
  have "Pending \<in> set ?ts"
    using nth len by (metis nth_mem)
  then have "result (wait_until_desired_status model apps (Some us) status_arg agent_status_arg
                       queue env) = Inl (TimeoutException (timeout_message model))"
    using assms(1) by (simp add: wait_result Let_def)
  with ul nth show ?thesis by blast
qed

theorem unlisted_application_times_out_witness:
  "result (wait_until_desired_status ''m'' [''nova''] (Some [''keystone/0'']) None None None
      (\<lambda>i. [snapshot ''nova'' (one_unit_app ''nova/0'' ''active''),
             snapshot ''nova'' (one_unit_app ''nova/0'' ''active'')]))
     = Inl (TimeoutException (timeout_message ''m''))"
  using unlisted_application_times_out [of None "[''nova'']" 0 "[''keystone/0'']"
      "\<lambda>i. [snapshot ''nova'' (one_unit_app ''nova/0'' ''active''),
             snapshot ''nova'' (one_unit_app ''nova/0'' ''active'')]" None None "''m''"]
  by (simp add: queue_undersized_def present_not_subordinate_def example_defs)

end
